theory Spec2Isabelle
  imports Complex_Main
begin

section \<open>The SMD resistor code decoder (smdresistor/decoder.py)\<close>

text \<open>
  Conventions of the embedding.
  \<^item> A Python \<open>str\<close> is an Isabelle \<open>string\<close>. Input codes are read as ASCII text;
    Python's treatment of non-ASCII whitespace, non-ASCII decimal digits and non-ASCII case
    mappings is outside the model. The two non-ASCII characters of the unit suffixes stand
    as their UTF-8 bytes.
  \<^item> A Python \<open>float\<close> is a real number and float arithmetic is exact: rounding to
    binary64 is not modelled. A Python \<open>int\<close> is an \<open>int\<close>; the interpreter's configurable
    limit on the length of a decimal string given to \<open>int()\<close> is not modelled.
  \<^item> Every \<open>raise\<close> is a value \<open>Inl e\<close> of the type \<open>error + 'a\<close>. All of them are
    \<open>ValueError\<close> in the source; the constructors tell the raise sites apart.
\<close>

subsection \<open>Errors\<close>

datatype error =
    EmptyCode                    \<comment> \<open>"code must be a non-empty string"\<close>
  | InvalidRCode string          \<comment> \<open>"invalid R-code: {code}"\<close>
  | IndexOutOfRange string       \<comment> \<open>"EIA-96 index out of range: {num_str}"\<close>
  | UnknownMultiplier string     \<comment> \<open>"unknown EIA-96 multiplier letter: {letter}"\<close>
  | UnrecognizedCode string      \<comment> \<open>"unrecognized SMD resistor code: {code}"\<close>
  | NegativeOhms                 \<comment> \<open>"ohms must be non-negative"\<close>
  | IntLiteralError              \<comment> \<open>raised by \<open>int()\<close> on a string that is no integer literal\<close>
  | FormatSpecError              \<comment> \<open>raised by the formatting of a float with a rejected format specifier\<close>
  | IndexError                   \<comment> \<open>raised by indexing a sequence out of range\<close>

subsection \<open>Characters and the string methods the decoder calls\<close>

definition is_digit :: "char \<Rightarrow> bool" where
  "is_digit c \<longleftrightarrow> c \<in> set ''0123456789''"

definition ascii_lowercase :: string where
  "ascii_lowercase = ''abcdefghijklmnopqrstuvwxyz''"

definition ascii_uppercase :: string where
  "ascii_uppercase = ''ABCDEFGHIJKLMNOPQRSTUVWXYZ''"

definition is_letter :: "char \<Rightarrow> bool" where
  "is_letter c \<longleftrightarrow> c \<in> set ascii_lowercase \<or> c \<in> set ascii_uppercase"

text \<open>\<open>str.isspace\<close> on ASCII: tab, line feed, vertical tab, form feed, carriage return,
  the four separators 28 to 31, and the space.\<close>

definition is_space :: "char \<Rightarrow> bool" where
  "is_space c \<longleftrightarrow> (of_char c :: nat) \<in> {9, 10, 11, 12, 13, 28, 29, 30, 31, 32}"

definition py_strip :: "string \<Rightarrow> string" where
  "py_strip s = rev (dropWhile is_space (rev (dropWhile is_space s)))"

text \<open>\<open>s.replace(" ", "")\<close>\<close>

definition remove_spaces :: "string \<Rightarrow> string" where
  "remove_spaces s = filter (\<lambda>c. c \<noteq> CHR '' '') s"

definition upper_char :: "char \<Rightarrow> char" where
  "upper_char c =
     (case map_of (zip ascii_lowercase ascii_uppercase) c of
        Some u \<Rightarrow> u
      | None \<Rightarrow> c)"

definition py_upper :: "string \<Rightarrow> string" where
  "py_upper s = map upper_char s"

subsection \<open>Conversions between strings and numbers\<close>

definition digit_val :: "char \<Rightarrow> nat" where
  "digit_val c = of_char c - 48"

definition digits_val :: "string \<Rightarrow> nat" where
  "digits_val s = foldl (\<lambda>acc c. 10 * acc + digit_val c) 0 s"

text \<open>\<open>int(s)\<close> on the strings the decoder passes to it: a non-empty run of decimal digits
  is read in base ten, leading zeros allowed; any other string counts as no literal.\<close>

definition py_int :: "string \<Rightarrow> int option" where
  "py_int s = (if s \<noteq> [] \<and> list_all is_digit s then Some (int (digits_val s)) else None)"

text \<open>\<open>str(n)\<close> for an integer: the decimal digits without leading zeros.\<close>

definition digit_char :: "nat \<Rightarrow> char" where
  "digit_char d = ''0123456789'' ! d"

function str_nat :: "nat \<Rightarrow> string" where
  "str_nat n = (if n < 10 then [digit_char n] else str_nat (n div 10) @ [digit_char (n mod 10)])"
  by pat_completeness auto
termination
  by (relation "measure id") auto

declare str_nat.simps [simp del]

definition str_int :: "int \<Rightarrow> string" where
  "str_int i = (if i < 0 then CHR ''-'' # str_nat (nat (- i)) else str_nat (nat i))"

text \<open>\<open>float(s)\<close> on the strings the decoder passes to it: decimal digits, a point, decimal
  digits, with digits on at least one side of the point; any other string counts as no
  literal.\<close>

definition py_float :: "string \<Rightarrow> real option" where
  "py_float s =
     (let a = takeWhile (\<lambda>c. c \<noteq> CHR ''.'') s;
          rest = dropWhile (\<lambda>c. c \<noteq> CHR ''.'') s
      in case rest of
           [] \<Rightarrow> None
         | p # b \<Rightarrow>
             if list_all is_digit a \<and> list_all is_digit b \<and> \<not> (a = [] \<and> b = [])
             then Some (real (digits_val a) + real (digits_val b) / 10 ^ length b)
             else None)"

text \<open>\<open>xs[i]\<close>: a negative index counts from the end, an index out of range raises.\<close>

definition py_index :: "'a list \<Rightarrow> int \<Rightarrow> 'a option" where
  "py_index xs i =
     (if 0 \<le> i \<and> i < int (length xs) then Some (xs ! nat i)
      else if i < 0 \<and> 0 \<le> int (length xs) + i then Some (xs ! nat (int (length xs) + i))
      else None)"

subsection \<open>The tables\<close>

definition EIA96_BASES :: "int list" where
  "EIA96_BASES =
    [100, 102, 105, 107, 110, 113, 115, 118, 121, 124, 127, 130,
     133, 137, 140, 143, 147, 150, 154, 158, 162, 165, 169, 174,
     178, 182, 187, 191, 196, 200, 205, 210, 215, 221, 226, 232,
     237, 243, 249, 255, 261, 267, 274, 280, 287, 294, 301, 309,
     316, 324, 332, 340, 348, 357, 365, 374, 383, 392, 402, 412,
     422, 432, 442, 453, 464, 475, 487, 499, 511, 523, 536, 549,
     562, 576, 590, 604, 619, 634, 649, 665, 681, 698, 715, 732,
     750, 768, 787, 806, 825, 845, 866, 887, 909, 931, 953, 976]"

definition EIA96_MULTIPLIERS :: "string \<rightharpoonup> real" where
  "EIA96_MULTIPLIERS = map_of
    [(''Z'', 1 / 1000),
     (''Y'', 1 / 100),
     (''R'', 1 / 100),
     (''X'', 1 / 10),
     (''S'', 1 / 10),
     (''A'', 1),
     (''B'', 10),
     (''H'', 10),
     (''C'', 100),
     (''D'', 1000),
     (''E'', 10000),
     (''F'', 100000)]"

subsection \<open>The three regular expressions\<close>

text \<open>Without the MULTILINE flag, \<open>$\<close> matches at the end of the string and also just
  before a line feed that ends the string. None of the three patterns can match a line
  feed, so each of them matches the string with one final line feed left out.\<close>

definition before_final_newline :: "string \<Rightarrow> string" where
  "before_final_newline s = (if s \<noteq> [] \<and> last s = CHR 0x0A then butlast s else s)"

text \<open>\<open>(?i)^(\d*)r(\d*)$\<close>: the groups are the digits before and after the letter.\<close>

definition R_CODE_RE :: "string \<Rightarrow> (string \<times> string) option" where
  "R_CODE_RE s =
     (let t = before_final_newline s in
      case dropWhile is_digit t of
        [] \<Rightarrow> None
      | c # b \<Rightarrow>
          if (c = CHR ''r'' \<or> c = CHR ''R'') \<and> list_all is_digit b
          then Some (takeWhile is_digit t, b)
          else None)"

text \<open>\<open>(?i)^(\d{2})([a-z])$\<close>\<close>

definition EIA96_RE :: "string \<Rightarrow> (string \<times> string) option" where
  "EIA96_RE s =
     (case before_final_newline s of
        [d1, d2, l] \<Rightarrow>
          if is_digit d1 \<and> is_digit d2 \<and> is_letter l then Some ([d1, d2], [l]) else None
      | _ \<Rightarrow> None)"

text \<open>\<open>^(\d{3,4})$\<close>\<close>

definition DIGIT_RE :: "string \<Rightarrow> string option" where
  "DIGIT_RE s =
     (let t = before_final_newline s in
      if (length t = 3 \<or> length t = 4) \<and> list_all is_digit t then Some t else None)"

subsection \<open>\<open>decode\<close>\<close>

record DecodeResult =
  ohms :: real
  scheme :: string

text \<open>\<open>s or "0"\<close>: the empty string counts as false.\<close>

definition or_zero :: "string \<Rightarrow> string" where
  "or_zero s = (if s = [] then ''0'' else s)"

text \<open>Line 62: \<open>s = code.strip().replace(" ", "").upper()\<close>\<close>

definition normalized :: "string \<Rightarrow> string" where
  "normalized code = py_upper (remove_spaces (py_strip code))"

definition decode :: "string \<Rightarrow> error + DecodeResult" where
  "decode code =
    (if py_strip code = [] then Inl EmptyCode
     else
       let s = normalized code in
       case R_CODE_RE s of
         Some (int_part0, frac_part0) \<Rightarrow>
           let int_part = or_zero int_part0;
               frac_part = or_zero frac_part0
           in (case py_int int_part of
                 None \<Rightarrow> Inl (InvalidRCode code)
               | Some i \<Rightarrow>
                   (case py_float (str_int i @ ''.'' @ frac_part) of
                      None \<Rightarrow> Inl (InvalidRCode code)
                    | Some v \<Rightarrow> Inr \<lparr>ohms = v, scheme = ''R''\<rparr>))
       | None \<Rightarrow>
          (case EIA96_RE s of
             Some (num_str, letter) \<Rightarrow>
               (case py_int num_str of
                  None \<Rightarrow> Inl IntLiteralError
                | Some idx \<Rightarrow>
                    if \<not> (1 \<le> idx \<and> idx \<le> 96) then Inl (IndexOutOfRange num_str)
                    else
                      (case py_index EIA96_BASES (idx - 1) of
                         None \<Rightarrow> Inl IndexError
                       | Some base \<Rightarrow>
                           (case EIA96_MULTIPLIERS letter of
                              None \<Rightarrow> Inl (UnknownMultiplier letter)
                            | Some mult \<Rightarrow>
                                Inr \<lparr>ohms = real_of_int base * mult / 100,
                                     scheme = ''EIA-96''\<rparr>)))
           | None \<Rightarrow>
              (case DIGIT_RE s of
                 Some digits \<Rightarrow>
                   let (sig_str, k) =
                         (if length digits = 3 then (take 2 digits, 2) else (take 3 digits, 3))
                   in (case py_int sig_str of
                         None \<Rightarrow> Inl IntLiteralError
                       | Some sig \<Rightarrow>
                           (case py_index digits k of
                              None \<Rightarrow> Inl IndexError
                            | Some e \<Rightarrow>
                                (case py_int [e] of
                                   None \<Rightarrow> Inl IntLiteralError
                                 | Some exp' \<Rightarrow>
                                     Inr \<lparr>ohms = real_of_int (sig * 10 ^ nat exp'),
                                          scheme = str_int (int (length digits)) @ ''-digit''\<rparr>)))
               | None \<Rightarrow> Inl (UnrecognizedCode code))))"

subsection \<open>\<open>format_ohms\<close>\<close>

text \<open>The UTF-8 bytes of the ohm sign (U+03A9) and of the micro sign (U+00B5).\<close>

definition ohm_sign :: string where
  "ohm_sign = [CHR 0xCE, CHR 0xA9]"

definition micro_sign :: string where
  "micro_sign = [CHR 0xC2, CHR 0xB5]"

text \<open>
  The text \<open>f"{x:.{precision}g}{suffix}"\<close> is kept as the three things it is made of: the
  digits that general-number formatting prints for a float are a matter of binary64, so the
  record stands for "\<open>mantissa\<close> printed with \<open>sig_digits\<close> significant digits, then
  \<open>suffix\<close>". What is modelled of the formatting is when it raises: the specifier
  \<open>.{precision}g\<close> is rejected when \<open>precision\<close> is negative (the specifier then has a
  minus sign where the digits of the precision must be) and when it exceeds the largest C
  \<open>int\<close>.
\<close>

record formatted =
  mantissa :: real
  sig_digits :: nat
  suffix :: string

definition valid_precision :: "int \<Rightarrow> bool" where
  "valid_precision p \<longleftrightarrow> 0 \<le> p \<and> p \<le> 2147483647"

definition format_g :: "real \<Rightarrow> int \<Rightarrow> string \<Rightarrow> error + formatted" where
  "format_g x precision sfx =
     (if valid_precision precision
      then Inr \<lparr>mantissa = x, sig_digits = nat precision, suffix = sfx\<rparr>
      else Inl FormatSpecError)"

definition units :: "(real \<times> string) list" where
  "units =
     [(1000000, ''M'' @ ohm_sign),
      (1000, ''k'' @ ohm_sign),
      (1, ohm_sign),
      (1 / 1000, ''m'' @ ohm_sign)]"

text \<open>The \<open>for\<close> loop over \<open>units\<close>, with the statement after the loop as the empty case.\<close>

fun format_units :: "real \<Rightarrow> int \<Rightarrow> (real \<times> string) list \<Rightarrow> error + formatted" where
  "format_units ohms_in precision [] =
     format_g (ohms_in / (1 / 1000000)) precision (micro_sign @ ohm_sign)"
| "format_units ohms_in precision ((factor, sfx) # rest) =
     (if ohms_in \<ge> factor then format_g (ohms_in / factor) precision sfx
      else format_units ohms_in precision rest)"

definition format_ohms :: "real \<Rightarrow> int \<Rightarrow> error + formatted" where
  "format_ohms ohms_in precision =
     (if ohms_in < 0 then Inl NegativeOhms else format_units ohms_in precision units)"

section \<open>Auxiliary facts\<close>

subsection \<open>Digits and letters\<close>

lemma is_digit_cases:
  "is_digit c \<longleftrightarrow> c = CHR ''0'' \<or> c = CHR ''1'' \<or> c = CHR ''2'' \<or> c = CHR ''3'' \<or> c = CHR ''4''
     \<or> c = CHR ''5'' \<or> c = CHR ''6'' \<or> c = CHR ''7'' \<or> c = CHR ''8'' \<or> c = CHR ''9''"
  by (simp add: is_digit_def)

lemma digit_facts:
  "list_all (\<lambda>c. upper_char c = c \<and> \<not> is_space c \<and> \<not> is_letter c \<and> digit_val c < 10
        \<and> c \<noteq> CHR ''.'' \<and> c \<noteq> CHR ''r'' \<and> c \<noteq> CHR ''R'' \<and> c \<noteq> CHR 0x0A \<and> c \<noteq> CHR '' '')
     ''0123456789''"
  by code_simp

lemma digit_props:
  assumes "is_digit c"
  shows "upper_char c = c" "\<not> is_space c" "\<not> is_letter c" "digit_val c < 10"
    "c \<noteq> CHR ''.''" "c \<noteq> CHR ''r''" "c \<noteq> CHR ''R''" "c \<noteq> CHR 0x0A" "c \<noteq> CHR '' ''"
  using assms digit_facts unfolding is_digit_def list_all_iff by blast+

lemma letter_facts:
  "list_all (\<lambda>c. is_letter (upper_char c) \<and> upper_char (upper_char c) = upper_char c
      \<and> \<not> is_digit c \<and> \<not> is_digit (upper_char c) \<and> \<not> is_space c \<and> \<not> is_space (upper_char c)
      \<and> c \<noteq> CHR 0x0A \<and> upper_char c \<noteq> CHR 0x0A \<and> c \<noteq> CHR '' '' \<and> upper_char c \<noteq> CHR '' ''
      \<and> upper_char c \<noteq> CHR ''r''
      \<and> (upper_char c = CHR ''R'' \<longleftrightarrow> c = CHR ''r'' \<or> c = CHR ''R''))
    (ascii_lowercase @ ascii_uppercase)"
  by code_simp

lemma is_letter_mem: "is_letter c \<longleftrightarrow> c \<in> set (ascii_lowercase @ ascii_uppercase)"
  by (simp only: is_letter_def set_append Un_iff)

lemma letter_props:
  assumes "is_letter c"
  shows "is_letter (upper_char c)" "upper_char (upper_char c) = upper_char c"
    "\<not> is_digit c" "\<not> is_digit (upper_char c)" "\<not> is_space c" "\<not> is_space (upper_char c)"
    "c \<noteq> CHR 0x0A" "upper_char c \<noteq> CHR 0x0A" "c \<noteq> CHR '' ''" "upper_char c \<noteq> CHR '' ''"
    "upper_char c \<noteq> CHR ''r''"
    "upper_char c = CHR ''R'' \<longleftrightarrow> c = CHR ''r'' \<or> c = CHR ''R''"
  using assms letter_facts unfolding is_letter_mem list_all_iff by blast+

subsection \<open>Decimal strings\<close>

lemma less_10_cases: "d < 10 \<Longrightarrow> d \<in> {0,1,2,3,4,5,6,7,8,9::nat}"
  by auto

lemma is_digit_digit_char: "d < 10 \<Longrightarrow> is_digit (digit_char d)"
  by (drule less_10_cases, elim insertE emptyE) (simp_all add: is_digit_def digit_char_def)

lemma digit_val_digit_char: "d < 10 \<Longrightarrow> digit_val (digit_char d) = d"
  by (drule less_10_cases, elim insertE emptyE) (simp_all add: digit_val_def digit_char_def)

lemma digits_val_snoc: "digits_val (s @ [c]) = 10 * digits_val s + digit_val c"
  by (simp add: digits_val_def)

lemma str_nat_digits: "list_all is_digit (str_nat n)"
proof (induction n rule: str_nat.induct)
  case (1 n)
  show ?case
  proof (cases "n < 10")
    case True
    then show ?thesis by (subst str_nat.simps) (simp add: is_digit_digit_char)
  next
    case False
    with "1" have "list_all is_digit (str_nat (n div 10))" by simp
    moreover have "is_digit (digit_char (n mod 10))" by (simp add: is_digit_digit_char)
    ultimately show ?thesis using False by (subst str_nat.simps) simp
  qed
qed

lemma str_nat_not_Nil: "str_nat n \<noteq> []"
  by (subst str_nat.simps) simp

lemma digits_val_str_nat: "digits_val (str_nat n) = n"
proof (induction n rule: str_nat.induct)
  case (1 n)
  show ?case
  proof (cases "n < 10")
    case True
    then show ?thesis by (subst str_nat.simps) (simp add: digits_val_def digit_val_digit_char)
  next
    case False
    with "1" have "digits_val (str_nat (n div 10)) = n div 10" by simp
    then show ?thesis using False
      by (subst str_nat.simps) (simp add: digits_val_snoc digit_val_digit_char)
  qed
qed

lemma py_int_digits:
  "s \<noteq> [] \<Longrightarrow> list_all is_digit s \<Longrightarrow> py_int s = Some (int (digits_val s))"
  by (simp add: py_int_def)

lemma py_int_nonneg: "py_int s = Some i \<Longrightarrow> 0 \<le> i"
  by (auto simp: py_int_def split: if_splits)

lemma str_int_of_nat: "str_int (int n) = str_nat n"
  by (simp add: str_int_def)

lemma py_float_decimal:
  assumes "list_all is_digit a" and "list_all is_digit b" and "a \<noteq> [] \<or> b \<noteq> []"
  shows "py_float (a @ ''.'' @ b) = Some (real (digits_val a) + real (digits_val b) / 10 ^ length b)"
proof -
  have nodot: "\<And>x. x \<in> set a \<Longrightarrow> x \<noteq> CHR ''.''"
    using assms(1) by (auto simp: list_all_iff digit_props)
  have tw: "takeWhile (\<lambda>c. c \<noteq> CHR ''.'') (a @ ''.'' @ b) = a"
    using nodot by (simp add: takeWhile_append2)
  have dw: "dropWhile (\<lambda>c. c \<noteq> CHR ''.'') (a @ ''.'' @ b) = ''.'' @ b"
    using nodot by (simp add: dropWhile_append2)
  show ?thesis
    unfolding py_float_def tw dw using assms by simp
qed

lemma py_float_nonneg: "py_float s = Some v \<Longrightarrow> 0 \<le> v"
  unfolding py_float_def Let_def
  by (cases "dropWhile (\<lambda>c. c \<noteq> CHR ''.'') s") (auto split: if_splits)

subsection \<open>Normalisation\<close>

lemma dropWhile_hd_id: "s \<noteq> [] \<Longrightarrow> \<not> P (hd s) \<Longrightarrow> dropWhile P s = s"
  by (cases s) simp_all

lemma py_strip_pad:
  assumes w1: "list_all is_space w1" and w2: "list_all is_space w2"
    and m: "m \<noteq> []" "\<not> is_space (hd m)" "\<not> is_space (last m)"
  shows "py_strip (w1 @ m @ w2) = m"
proof -
  have "dropWhile is_space (w1 @ m @ w2) = dropWhile is_space (m @ w2)"
    using w1 by (simp add: dropWhile_append2 list_all_iff)
  also have "\<dots> = m @ w2"
    using m by (intro dropWhile_hd_id) simp_all
  finally have 1: "dropWhile is_space (w1 @ m @ w2) = m @ w2" .
  have "\<And>x. x \<in> set (rev w2) \<Longrightarrow> is_space x"
    using w2 by (simp add: list_all_iff)
  then have "dropWhile is_space (rev w2 @ rev m) = dropWhile is_space (rev m)"
    by (rule dropWhile_append2)
  also have "\<dots> = rev m"
    using m by (intro dropWhile_hd_id) (simp_all add: hd_rev)
  finally show ?thesis
    by (simp add: py_strip_def 1)
qed

lemma py_strip_id:
  assumes "s \<noteq> []" "\<not> is_space (hd s)" "\<not> is_space (last s)"
  shows "py_strip s = s"
  using py_strip_pad [of "[]" "[]" s] assms by simp

lemma py_strip_no_space:
  assumes "\<forall>c\<in>set s. \<not> is_space c"
  shows "py_strip s = s"
proof (cases "s = []")
  case True
  then show ?thesis by (simp add: py_strip_def)
next
  case False
  then have "hd s \<in> set s" "last s \<in> set s" by simp_all
  with assms False show ?thesis by (intro py_strip_id) auto
qed

lemma remove_spaces_id: "CHR '' '' \<notin> set s \<Longrightarrow> remove_spaces s = s"
  unfolding remove_spaces_def by (induction s) auto

lemma py_upper_id: "\<forall>c\<in>set s. upper_char c = c \<Longrightarrow> py_upper s = s"
  unfolding py_upper_def by (induction s) auto

lemma alnum_strip:
  assumes "\<forall>c\<in>set s. is_digit c \<or> is_letter c"
  shows "py_strip s = s"
  using assms by (intro py_strip_no_space) (auto dest: digit_props(2) letter_props(5))

lemma alnum_normalized:
  assumes "\<forall>c\<in>set s. is_digit c \<or> is_letter c"
  shows "normalized s = py_upper s"
proof -
  have "CHR '' '' \<notin> set s"
    using assms digit_props(9) letter_props(9) by blast
  then show ?thesis
    by (simp add: normalized_def alnum_strip [OF assms] remove_spaces_id)
qed

lemma digits_normalized:
  assumes "list_all is_digit s"
  shows "py_strip s = s" "normalized s = s"
proof -
  have a: "\<forall>c\<in>set s. is_digit c \<or> is_letter c"
    using assms by (simp add: list_all_iff)
  show "py_strip s = s" by (rule alnum_strip [OF a])
  have "py_upper s = s"
    using assms by (intro py_upper_id) (simp add: list_all_iff digit_props(1))
  then show "normalized s = s" by (simp add: alnum_normalized [OF a])
qed

subsection \<open>What the regular expressions match\<close>

lemma R_CODE_RE_match:
  assumes a: "list_all is_digit a" and b: "list_all is_digit b"
    and c: "c = CHR ''r'' \<or> c = CHR ''R''"
  shows "R_CODE_RE (a @ c # b) = Some (a, b)"
proof -
  have "last (a @ c # b) \<noteq> CHR 0x0A"
  proof (cases "b = []")
    case True
    then show ?thesis using c by auto
  next
    case False
    then have "last b \<in> set b" by simp
    then have "is_digit (last b)" using b by (simp add: list_all_iff)
    then show ?thesis using False by (simp add: digit_props(8))
  qed
  then have t: "before_final_newline (a @ c # b) = a @ c # b"
    by (simp add: before_final_newline_def)
  have nd: "\<not> is_digit c"
    using c digit_props(6,7) by blast
  have dw: "dropWhile is_digit (a @ c # b) = c # b"
    using a nd by (simp add: dropWhile_append2 list_all_iff)
  have tw: "takeWhile is_digit (a @ c # b) = a"
    using a nd by (simp add: takeWhile_append2 list_all_iff)
  show ?thesis
    unfolding R_CODE_RE_def Let_def t dw tw using b c by simp
qed

lemma R_CODE_RE_groups:
  assumes "R_CODE_RE s = Some (a, b)"
  shows "list_all is_digit a" "list_all is_digit b"
proof -
  let ?t = "before_final_newline s"
  obtain c b' where d: "dropWhile is_digit ?t = c # b'"
    using assms unfolding R_CODE_RE_def Let_def by (cases "dropWhile is_digit ?t") simp_all
  from assms d have "list_all is_digit b'" "a = takeWhile is_digit ?t" "b = b'"
    unfolding R_CODE_RE_def Let_def by (simp_all split: if_splits)
  then show "list_all is_digit a" "list_all is_digit b"
    by (simp_all add: list_all_iff) (meson set_takeWhileD)
qed

lemma R_CODE_RE_all_digits: "list_all is_digit s \<Longrightarrow> R_CODE_RE s = None"
proof -
  assume s: "list_all is_digit s"
  have "list_all is_digit (before_final_newline s)"
    using s by (auto simp: before_final_newline_def list_all_iff dest: in_set_butlastD)
  then have d: "dropWhile is_digit (before_final_newline s) = []"
    by (simp add: list_all_iff)
  show ?thesis unfolding R_CODE_RE_def Let_def d by simp
qed

lemma R_CODE_RE_other_letter:
  assumes "is_digit d1" "is_digit d2" "\<not> is_digit l" "l \<noteq> CHR ''r''" "l \<noteq> CHR ''R''" "l \<noteq> CHR 0x0A"
  shows "R_CODE_RE [d1, d2, l] = None"
  using assms by (simp add: R_CODE_RE_def before_final_newline_def)

lemma EIA96_RE_match:
  assumes "is_digit d1" "is_digit d2" "is_letter l"
  shows "EIA96_RE [d1, d2, l] = Some ([d1, d2], [l])"
  using assms letter_props(7) [of l] by (simp add: EIA96_RE_def before_final_newline_def)

lemma EIA96_RE_all_digits: "list_all is_digit s \<Longrightarrow> EIA96_RE s = None"
proof -
  assume s: "list_all is_digit s"
  have t: "list_all is_digit (before_final_newline s)"
    using s by (auto simp: before_final_newline_def list_all_iff dest: in_set_butlastD)
  show ?thesis
  proof (cases "EIA96_RE s")
    case None
    then show ?thesis .
  next
    case (Some g)
    then obtain d1 d2 l where "before_final_newline s = [d1, d2, l]" "is_letter l"
      unfolding EIA96_RE_def by (auto split: list.splits if_splits)
    with t show ?thesis by (simp add: digit_props(3))
  qed
qed

lemma DIGIT_RE_match:
  assumes "list_all is_digit s" "length s = 3 \<or> length s = 4"
  shows "DIGIT_RE s = Some s"
proof -
  have "s \<noteq> []" using assms(2) by auto
  then have "last s \<in> set s" by simp
  then have "last s \<noteq> CHR 0x0A"
    using assms(1) by (auto simp: list_all_iff dest: digit_props(8))
  then have "before_final_newline s = s"
    by (simp add: before_final_newline_def)
  then show ?thesis using assms by (simp add: DIGIT_RE_def)
qed

lemma DIGIT_RE_Some:
  assumes "DIGIT_RE s = Some ds"
  shows "list_all is_digit ds" "length ds = 3 \<or> length ds = 4"
  using assms by (auto simp: DIGIT_RE_def Let_def split: if_splits)

lemma EIA96_RE_Some:
  assumes "EIA96_RE s = Some (n, l)"
  shows "list_all is_digit n" "length n = 2"
  using assms by (auto simp: EIA96_RE_def split: list.splits if_splits)

subsection \<open>The branches of decode\<close>

lemma or_zero_digits: "list_all is_digit s \<Longrightarrow> list_all is_digit (or_zero s) \<and> or_zero s \<noteq> []"
  by (simp add: or_zero_def is_digit_def)



lemma decode_R:
  assumes ne: "py_strip code \<noteq> []" and m: "R_CODE_RE (normalized code) = Some (a, b)"
  shows "decode code =
    Inr \<lparr>ohms = real (digits_val (or_zero a)) + real (digits_val (or_zero b)) / 10 ^ length (or_zero b),
         scheme = ''R''\<rparr>"
proof -
  note g = R_CODE_RE_groups [OF m]
  note da = or_zero_digits [OF g(1)] and db = or_zero_digits [OF g(2)]
  have i: "py_int (or_zero a) = Some (int (digits_val (or_zero a)))"
    using da by (simp add: py_int_digits)
  have f: "py_float (str_nat (digits_val (or_zero a)) @ ''.'' @ or_zero b) =
      Some (real (digits_val (or_zero a)) + real (digits_val (or_zero b)) / 10 ^ length (or_zero b))"
    using py_float_decimal [of "str_nat (digits_val (or_zero a))" "or_zero b"] db
    by (simp add: str_nat_digits digits_val_str_nat)
  show ?thesis
    unfolding decode_def using ne by (simp add: m i str_int_of_nat f del: append.simps)
qed

lemma decode_EIA96:
  assumes ne: "py_strip code \<noteq> []" and r: "R_CODE_RE (normalized code) = None"
    and m: "EIA96_RE (normalized code) = Some (num_str, letter)"
  shows "decode code =
    (let idx = int (digits_val num_str) in
     if \<not> (1 \<le> idx \<and> idx \<le> 96) then Inl (IndexOutOfRange num_str)
     else case EIA96_MULTIPLIERS letter of
            None \<Rightarrow> Inl (UnknownMultiplier letter)
          | Some mult \<Rightarrow>
              Inr \<lparr>ohms = real_of_int (EIA96_BASES ! nat (idx - 1)) * mult / 100,
                   scheme = ''EIA-96''\<rparr>)"
proof -
  note g = EIA96_RE_Some [OF m]
  have "num_str \<noteq> []" using g(2) by auto
  then have i: "py_int num_str = Some (int (digits_val num_str))"
    using g(1) by (simp add: py_int_digits)
  have len: "length EIA96_BASES = 96"
    by (simp add: EIA96_BASES_def)
  have ix: "1 \<le> j \<and> j \<le> 96 \<Longrightarrow> py_index EIA96_BASES (j - 1) = Some (EIA96_BASES ! nat (j - 1))" for j
    by (simp add: py_index_def len)
  show ?thesis
    unfolding decode_def using ne by (simp add: r m i ix Let_def)
qed

lemma decode_DIGIT:
  assumes ne: "py_strip code \<noteq> []" and r: "R_CODE_RE (normalized code) = None"
    and e: "EIA96_RE (normalized code) = None"
    and m: "DIGIT_RE (normalized code) = Some digits"
  shows "decode code =
    Inr \<lparr>ohms = real (digits_val (butlast digits)) * 10 ^ digit_val (last digits),
         scheme = (if length digits = 3 then ''3-digit'' else ''4-digit'')\<rparr>"
proof -
  note g = DIGIT_RE_Some [OF m]
  from g(2) show ?thesis
  proof
    assume l: "length digits = 3"
    then obtain s1 s2 x where d: "digits = [s1, s2, x]"
      by (auto simp: length_Suc_conv numeral_3_eq_3)
    have i: "py_int [s1, s2] = Some (int (digits_val [s1, s2]))" "py_int [x] = Some (int (digits_val [x]))"
      using g(1) d by (simp_all add: py_int_digits)
    have s: "str_int 3 = ''3''"
      by code_simp
    show ?thesis
      unfolding decode_def using ne
      by (simp add: r e m d i s py_index_def) (simp add: digits_val_def)
  next
    assume l: "length digits = 4"
    then obtain s1 s2 s3 x where d: "digits = [s1, s2, s3, x]"
      by (auto simp: length_Suc_conv numeral_eq_Suc)
    have i: "py_int [s1, s2, s3] = Some (int (digits_val [s1, s2, s3]))"
        "py_int [x] = Some (int (digits_val [x]))"
      using g(1) d by (simp_all add: py_int_digits)
    have s: "str_int 4 = ''4''"
      by code_simp
    show ?thesis
      unfolding decode_def using ne
      by (simp add: r e m d i s py_index_def) (simp add: digits_val_def)
  qed
qed

lemma decode_unrecognized:
  assumes "py_strip code \<noteq> []" "R_CODE_RE (normalized code) = None"
    "EIA96_RE (normalized code) = None" "DIGIT_RE (normalized code) = None"
  shows "decode code = Inl (UnrecognizedCode code)"
  unfolding decode_def using assms by simp

lemma decode_empty: "py_strip code = [] \<Longrightarrow> decode code = Inl EmptyCode"
  by (simp add: decode_def)

subsection \<open>Codes of a given shape\<close>

lemma multiplier_keys:
  "EIA96_MULTIPLIERS k = Some m \<Longrightarrow> k \<in> set [''Z'', ''Y'', ''R'', ''X'', ''S'', ''A'', ''B'', ''H'', ''C'', ''D'', ''E'', ''F'']"
  by (auto simp: EIA96_MULTIPLIERS_def split: if_splits)

lemma multiplier_pos: "EIA96_MULTIPLIERS k = Some m \<Longrightarrow> 0 < m"
  by (auto simp: EIA96_MULTIPLIERS_def split: if_splits)

lemma key_facts:
  "list_all (\<lambda>c. is_letter c \<and> upper_char c = c \<and> c \<noteq> CHR ''r'') ''ZYRXSABHCDEF''"
  by code_simp

lemma multiplier_key_letter:
  assumes "EIA96_MULTIPLIERS [l] = Some m"
  shows "is_letter l" "upper_char l = l" "l \<noteq> CHR ''r''"
proof -
  have "l \<in> set ''ZYRXSABHCDEF''"
    using multiplier_keys [OF assms] by auto
  then show "is_letter l" "upper_char l = l" "l \<noteq> CHR ''r''"
    using key_facts unfolding list_all_iff by blast+
qed

lemma bases_length: "length EIA96_BASES = 96"
  by (simp add: EIA96_BASES_def)

lemma bases_range: "list_all (\<lambda>b. 100 \<le> b \<and> b \<le> 976) EIA96_BASES"
  by code_simp

lemma decode_EIA96_code:
  assumes d: "is_digit d1" "is_digit d2" and l: "is_letter l" "l \<noteq> CHR ''r''" "l \<noteq> CHR ''R''"
  shows "decode [d1, d2, l] =
    (let idx = int (10 * digit_val d1 + digit_val d2) in
     if \<not> (1 \<le> idx \<and> idx \<le> 96) then Inl (IndexOutOfRange [d1, d2])
     else case EIA96_MULTIPLIERS [upper_char l] of
            None \<Rightarrow> Inl (UnknownMultiplier [upper_char l])
          | Some mult \<Rightarrow>
              Inr \<lparr>ohms = real_of_int (EIA96_BASES ! nat (idx - 1)) * mult / 100,
                   scheme = ''EIA-96''\<rparr>)"
proof -
  let ?L = "upper_char l"
  have an: "\<forall>c\<in>set [d1, d2, l]. is_digit c \<or> is_letter c"
    using d l by simp
  have ne: "py_strip [d1, d2, l] \<noteq> []"
    by (simp add: alnum_strip [OF an])
  have n: "normalized [d1, d2, l] = [d1, d2, ?L]"
    using d by (simp add: alnum_normalized [OF an] py_upper_def digit_props(1))
  have L: "is_letter ?L" "\<not> is_digit ?L" "?L \<noteq> CHR ''r''" "?L \<noteq> CHR ''R''" "?L \<noteq> CHR 0x0A"
    using l letter_props [OF l(1)] by simp_all
  have r: "R_CODE_RE (normalized [d1, d2, l]) = None"
    unfolding n using d L by (intro R_CODE_RE_other_letter)
  have m: "EIA96_RE (normalized [d1, d2, l]) = Some ([d1, d2], [?L])"
    unfolding n using d L by (intro EIA96_RE_match)
  have v: "digits_val [d1, d2] = 10 * digit_val d1 + digit_val d2"
    by (simp add: digits_val_def)
  show ?thesis
    using decode_EIA96 [OF ne r m] by (simp only: v)
qed

lemma decode_digits_code:
  assumes "list_all is_digit ds" "length ds = 3 \<or> length ds = 4"
  shows "decode ds =
    Inr \<lparr>ohms = real (digits_val (butlast ds)) * 10 ^ digit_val (last ds),
         scheme = (if length ds = 3 then ''3-digit'' else ''4-digit'')\<rparr>"
proof -
  have "ds \<noteq> []" using assms(2) by auto
  then have ne: "py_strip ds \<noteq> []"
    by (simp add: digits_normalized(1) [OF assms(1)])
  note n = digits_normalized(2) [OF assms(1)]
  show ?thesis
    by (rule decode_DIGIT [OF ne]) (simp_all add: n R_CODE_RE_all_digits EIA96_RE_all_digits DIGIT_RE_match assms)
qed


subsection \<open>The outcomes of the EIA-96 branch\<close>




subsection \<open>The loop of \<open>format_ohms\<close>\<close>

lemma format_units_ok:
  "valid_precision precision \<Longrightarrow> \<exists>r. format_units x precision us = Inr r"
  by (induction us) (auto simp: format_g_def)

section \<open>The claims\<close>

subsection \<open>Claim C1\<close>

text \<open>
  C1, as amended: for every EIA-96 code made of two digits that form an index \<open>idx\<close> with
  \<open>1 \<le> idx \<le> 96\<close> and one letter other than R that is a key of the multiplier table,
  \<open>decode\<close> returns \<open>ohms = EIA96_BASES[idx-1] * EIA96_MULTIPLIERS[letter] / 100\<close>
  and the scheme "EIA-96".
\<close>

theorem decode_eia96_formula:
  assumes i: "py_int [d1, d2] = Some idx" and lo: "1 \<le> idx" and hi: "idx \<le> 96"
    and m: "EIA96_MULTIPLIERS [l] = Some mult" and l: "l \<noteq> CHR ''R''"
  shows "decode [d1, d2, l] =
    Inr \<lparr>ohms = real_of_int (EIA96_BASES ! nat (idx - 1)) * mult / 100, scheme = ''EIA-96''\<rparr>"
proof -
  from i have d: "is_digit d1" "is_digit d2" and v: "idx = int (10 * digit_val d1 + digit_val d2)"
    by (auto simp: py_int_def digits_val_def split: if_splits)
  note k = multiplier_key_letter [OF m]
  have e: "int (10 * digit_val d1 + digit_val d2) = idx"
    using v by simp
  show ?thesis
    unfolding decode_EIA96_code [OF d k(1) k(3) l] e Let_def
    using lo hi m by (simp add: k(2))
qed

theorem decode_eia96_formula_witness:
  "py_int ''68'' = Some 68 \<and> (1::int) \<le> 68 \<and> (68::int) \<le> 96
   \<and> EIA96_MULTIPLIERS ''X'' = Some (1 / 10) \<and> CHR ''X'' \<noteq> CHR ''R''
   \<and> decode ''68X'' = Inr \<lparr>ohms = 499 / 1000, scheme = ''EIA-96''\<rparr>"
proof -
  have i: "py_int ''68'' = Some 68"
    by code_simp
  have m: "EIA96_MULTIPLIERS ''X'' = Some (1 / 10)"
    by (simp add: EIA96_MULTIPLIERS_def)
  have b: "EIA96_BASES ! 67 = 499"
    by (simp add: EIA96_BASES_def)
  have "decode ''68X'' = Inr \<lparr>ohms = real_of_int (EIA96_BASES ! nat (68 - 1)) * (1 / 10) / 100,
      scheme = ''EIA-96''\<rparr>"
    by (rule decode_eia96_formula [OF i _ _ m]) simp_all
  then show ?thesis
    using i m by (simp add: b)
qed

text \<open>
  C1 as stated fails at the letter R: the code "01R" has the index 1 and the letter R is a
  key of the multiplier table, with the factor 0.01, but \<open>decode\<close> reads it as an
  R-as-decimal code worth 1 ohm, not as the EIA-96 code worth \<open>100 * 0.01 / 100\<close>.
\<close>

theorem decode_eia96_letter_R_counterexample:
  "py_int ''01'' = Some 1 \<and> EIA96_MULTIPLIERS ''R'' = Some (1 / 100)
   \<and> decode ''01R'' = Inr \<lparr>ohms = 1, scheme = ''R''\<rparr>
   \<and> decode ''01R'' \<noteq>
       Inr \<lparr>ohms = real_of_int (EIA96_BASES ! nat (1 - 1)) * (1 / 100) / 100, scheme = ''EIA-96''\<rparr>"
proof -
  have i: "py_int ''01'' = Some 1"
    by code_simp
  have m: "EIA96_MULTIPLIERS ''R'' = Some (1 / 100)"
    by (simp add: EIA96_MULTIPLIERS_def)
  have d: "decode ''01R'' = Inr \<lparr>ohms = 1, scheme = ''R''\<rparr>"
    by code_simp
  show ?thesis
    using i m by (simp add: d)
qed

subsection \<open>Claim C2\<close>

text \<open>
  C2: for every code of exactly three decimal digits "SSE", \<open>decode\<close> returns
  \<open>ohms = SS * 10^E\<close> and the scheme "3-digit"; for every code of exactly four decimal
  digits "SSSE", it returns \<open>ohms = SSS * 10^E\<close> and the scheme "4-digit".
\<close>

theorem decode_fixed_digits:
  "(is_digit s1 \<and> is_digit s2 \<and> is_digit e \<longrightarrow>
      decode [s1, s2, e] =
        Inr \<lparr>ohms = real (10 * digit_val s1 + digit_val s2) * 10 ^ digit_val e,
             scheme = ''3-digit''\<rparr>) \<and>
   (is_digit s1 \<and> is_digit s2 \<and> is_digit s3 \<and> is_digit e \<longrightarrow>
      decode [s1, s2, s3, e] =
        Inr \<lparr>ohms = real (100 * digit_val s1 + 10 * digit_val s2 + digit_val s3) * 10 ^ digit_val e,
             scheme = ''4-digit''\<rparr>)"
proof (intro conjI impI)
  assume "is_digit s1 \<and> is_digit s2 \<and> is_digit e"
  then have "list_all is_digit [s1, s2, e]" by simp
  from decode_digits_code [OF this] show "decode [s1, s2, e] =
      Inr \<lparr>ohms = real (10 * digit_val s1 + digit_val s2) * 10 ^ digit_val e, scheme = ''3-digit''\<rparr>"
    by (simp add: digits_val_def)
next
  assume "is_digit s1 \<and> is_digit s2 \<and> is_digit s3 \<and> is_digit e"
  then have "list_all is_digit [s1, s2, s3, e]" by simp
  from decode_digits_code [OF this] show "decode [s1, s2, s3, e] =
      Inr \<lparr>ohms = real (100 * digit_val s1 + 10 * digit_val s2 + digit_val s3) * 10 ^ digit_val e,
           scheme = ''4-digit''\<rparr>"
    by (simp add: digits_val_def)
qed

theorem decode_fixed_digits_witness:
  "is_digit CHR ''1'' \<and> is_digit CHR ''0'' \<and> is_digit CHR ''3'' \<and> is_digit CHR ''2''
   \<and> decode ''103'' = Inr \<lparr>ohms = 10000, scheme = ''3-digit''\<rparr>
   \<and> decode ''1002'' = Inr \<lparr>ohms = 10000, scheme = ''4-digit''\<rparr>"
proof -
  have d: "is_digit CHR ''1''" "is_digit CHR ''0''" "is_digit CHR ''3''" "is_digit CHR ''2''"
    by (simp_all add: is_digit_def)
  have v: "digit_val CHR ''1'' = 1" "digit_val CHR ''0'' = 0" "digit_val CHR ''3'' = 3"
      "digit_val CHR ''2'' = 2"
    by (simp_all add: digit_val_def)
  from decode_fixed_digits [of "CHR ''1''" "CHR ''0''" "CHR ''3''" "CHR ''0''"] d
  have 3: "decode ''103'' = Inr \<lparr>ohms = 10000, scheme = ''3-digit''\<rparr>"
    by (simp add: v)
  from decode_fixed_digits [of "CHR ''1''" "CHR ''0''" "CHR ''2''" "CHR ''0''"] d
  have 4: "decode ''1002'' = Inr \<lparr>ohms = 10000, scheme = ''4-digit''\<rparr>"
    by (simp add: v)
  show ?thesis using d 3 4 by simp
qed

subsection \<open>Claim C3\<close>



subsection \<open>Claim C4\<close>

text \<open>
  C4 says that \<open>format_ohms(0)\<close> with the default precision is "0" followed by the ohm
  sign, with no metric prefix. The code returns the mantissa 0 with the micro prefix: no
  factor of \<open>units\<close> is at most 0, so the loop falls through to the micro-ohm line.
\<close>

theorem format_ohms_zero:
  "format_ohms 0 3 = Inr \<lparr>mantissa = 0, sig_digits = 3, suffix = micro_sign @ ohm_sign\<rparr>
   \<and> micro_sign @ ohm_sign \<noteq> ohm_sign"
  by (simp add: format_ohms_def units_def format_g_def valid_precision_def micro_sign_def
      ohm_sign_def)

subsection \<open>Claim C5\<close>

text \<open>
  C5, as amended: \<open>decode\<close> fails with an invalid-code error for the empty string and for
  strings that are empty after trimming; for "00" or "97" followed by any single letter
  other than R; for two digits followed by a letter whose upper-case form is not a key of
  the multiplier table; and for any string whose normalised form matches none of the three
  patterns.
\<close>

theorem decode_invalid_codes:
  "(py_strip code = [] \<longrightarrow> decode code = Inl EmptyCode) \<and>
   (is_letter l \<and> l \<noteq> CHR ''r'' \<and> l \<noteq> CHR ''R'' \<longrightarrow>
      decode (''00'' @ [l]) = Inl (IndexOutOfRange ''00'')
      \<and> decode (''97'' @ [l]) = Inl (IndexOutOfRange ''97'')) \<and>
   (is_digit d1 \<and> is_digit d2 \<and> is_letter k \<and> EIA96_MULTIPLIERS [upper_char k] = None \<longrightarrow>
      decode [d1, d2, k] =
        (if 1 \<le> 10 * digit_val d1 + digit_val d2 \<and> 10 * digit_val d1 + digit_val d2 \<le> 96
         then Inl (UnknownMultiplier [upper_char k])
         else Inl (IndexOutOfRange [d1, d2]))) \<and>
   (py_strip code \<noteq> [] \<and> R_CODE_RE (normalized code) = None
      \<and> EIA96_RE (normalized code) = None \<and> DIGIT_RE (normalized code) = None \<longrightarrow>
      decode code = Inl (UnrecognizedCode code))"
proof (intro conjI impI)
  assume "py_strip code = []"
  then show "decode code = Inl EmptyCode"
    by (rule decode_empty)
next
  assume l: "is_letter l \<and> l \<noteq> CHR ''r'' \<and> l \<noteq> CHR ''R''"
  have d: "is_digit CHR ''0''" "is_digit CHR ''9''" "is_digit CHR ''7''"
    by (simp_all add: is_digit_def)
  have v: "digit_val CHR ''0'' = 0" "digit_val CHR ''9'' = 9" "digit_val CHR ''7'' = 7"
    by (simp_all add: digit_val_def)
  from l have l': "is_letter l" "l \<noteq> CHR ''r''" "l \<noteq> CHR ''R''"
    by simp_all
  show "decode (''00'' @ [l]) = Inl (IndexOutOfRange ''00'')"
    using decode_EIA96_code [OF d(1) d(1) l'] by (simp add: v)
  show "decode (''97'' @ [l]) = Inl (IndexOutOfRange ''97'')"
    using decode_EIA96_code [OF d(2) d(3) l'] by (simp add: v)
next
  assume a: "is_digit d1 \<and> is_digit d2 \<and> is_letter k \<and> EIA96_MULTIPLIERS [upper_char k] = None"
  then have d: "is_digit d1" "is_digit d2" and k: "is_letter k"
    and n: "EIA96_MULTIPLIERS [upper_char k] = None"
    by simp_all
  have "EIA96_MULTIPLIERS ''R'' \<noteq> None"
    by (simp add: EIA96_MULTIPLIERS_def)
  with n have "upper_char k \<noteq> CHR ''R''"
    by auto
  then have "k \<noteq> CHR ''r''" "k \<noteq> CHR ''R''"
    using letter_props(12) [OF k] by simp_all
  from decode_EIA96_code [OF d k this]
  show "decode [d1, d2, k] =
        (if 1 \<le> 10 * digit_val d1 + digit_val d2 \<and> 10 * digit_val d1 + digit_val d2 \<le> 96
         then Inl (UnknownMultiplier [upper_char k])
         else Inl (IndexOutOfRange [d1, d2]))"
    by (simp add: Let_def n)
next
  assume "py_strip code \<noteq> [] \<and> R_CODE_RE (normalized code) = None
      \<and> EIA96_RE (normalized code) = None \<and> DIGIT_RE (normalized code) = None"
  then show "decode code = Inl (UnrecognizedCode code)"
    by (intro decode_unrecognized) simp_all
qed

theorem decode_invalid_codes_witness:
  "py_strip '''' = [] \<and> decode '''' = Inl EmptyCode
   \<and> py_strip ''  '' = [] \<and> decode ''  '' = Inl EmptyCode
   \<and> is_letter CHR ''C'' \<and> CHR ''C'' \<noteq> CHR ''r'' \<and> CHR ''C'' \<noteq> CHR ''R''
   \<and> decode ''00C'' = Inl (IndexOutOfRange ''00'') \<and> decode ''97C'' = Inl (IndexOutOfRange ''97'')
   \<and> is_digit CHR ''0'' \<and> is_digit CHR ''1'' \<and> is_letter CHR ''G''
   \<and> EIA96_MULTIPLIERS [upper_char CHR ''G''] = None
   \<and> decode ''01G'' = Inl (UnknownMultiplier ''G'')
   \<and> py_strip ''abcxyz'' \<noteq> [] \<and> R_CODE_RE (normalized ''abcxyz'') = None
   \<and> EIA96_RE (normalized ''abcxyz'') = None \<and> DIGIT_RE (normalized ''abcxyz'') = None
   \<and> decode ''abcxyz'' = Inl (UnrecognizedCode ''abcxyz'')"
proof -
  have e: "py_strip '''' = []" "py_strip ''  '' = []"
    by code_simp+
  have c: "is_letter CHR ''C''" "is_letter CHR ''G''" "is_digit CHR ''0''" "is_digit CHR ''1''"
      "upper_char CHR ''G'' = CHR ''G''"
    by code_simp+
  have g: "EIA96_MULTIPLIERS [upper_char CHR ''G''] = None"
    by (simp add: c(5) EIA96_MULTIPLIERS_def)
  have v: "digit_val CHR ''0'' = 0" "digit_val CHR ''1'' = 1"
    by (simp_all add: digit_val_def)
  have u: "py_strip ''abcxyz'' \<noteq> []" "R_CODE_RE (normalized ''abcxyz'') = None"
      "EIA96_RE (normalized ''abcxyz'') = None" "DIGIT_RE (normalized ''abcxyz'') = None"
    by code_simp+
  have 1: "decode '''' = Inl EmptyCode"
    using decode_invalid_codes [where code = "''''"] e by blast
  have 2: "decode ''  '' = Inl EmptyCode"
    using decode_invalid_codes [where code = "''  ''"] e by blast
  have 3: "decode ''00C'' = Inl (IndexOutOfRange ''00'')" "decode ''97C'' = Inl (IndexOutOfRange ''97'')"
    using decode_invalid_codes [where l = "CHR ''C''"] c by simp_all
  have 4: "decode ''01G'' = Inl (UnknownMultiplier ''G'')"
    using decode_invalid_codes [where ?d1.0 = "CHR ''0''" and ?d2.0 = "CHR ''1''" and k = "CHR ''G''"] c g
    by (simp add: v)
  have 5: "decode ''abcxyz'' = Inl (UnrecognizedCode ''abcxyz'')"
    using decode_invalid_codes [where code = "''abcxyz''"] u by blast
  show ?thesis
    using e c g u 1 2 3 4 5 by simp
qed

text \<open>
  C5 as stated fails at the letter R: "00R" and "97R" match the R-as-decimal pattern, which
  is tried first, and decode to 0 and 97 ohms.
\<close>

theorem decode_invalid_codes_counterexample:
  "is_letter CHR ''R''
   \<and> decode ''00R'' = Inr \<lparr>ohms = 0, scheme = ''R''\<rparr>
   \<and> decode ''97R'' = Inr \<lparr>ohms = 97, scheme = ''R''\<rparr>"
  by code_simp

subsection \<open>Claim C6\<close>



subsection \<open>Claim C7\<close>

text \<open>
  C7, as amended: for every precision that the format specifier accepts, from 0 to
  2147483647, the default 3 among them, \<open>format_ohms\<close> fails with the invalid-value error
  if and only if \<open>ohms\<close> is negative, and for every \<open>ohms \<ge> 0\<close> it returns a text without
  error.
\<close>

theorem format_ohms_error_iff:
  assumes p: "valid_precision precision"
  shows "(format_ohms x precision = Inl NegativeOhms \<longleftrightarrow> x < 0)
       \<and> ((\<exists>e. format_ohms x precision = Inl e) \<longleftrightarrow> x < 0)
       \<and> (0 \<le> x \<longrightarrow> (\<exists>r. format_ohms x precision = Inr r))"
proof (cases "x < 0")
  case True
  then show ?thesis
    by (simp add: format_ohms_def)
next
  case False
  from format_units_ok [OF p] obtain r where "format_units x precision units = Inr r"
    by blast
  with False show ?thesis
    by (simp add: format_ohms_def)
qed

theorem format_ohms_error_iff_witness:
  "valid_precision 3 \<and> format_ohms (- 1) 3 = Inl NegativeOhms \<and> (0::real) \<le> 47 / 10
   \<and> (\<exists>r. format_ohms (47 / 10) 3 = Inr r)"
proof -
  have p: "valid_precision 3"
    by (simp add: valid_precision_def)
  from format_ohms_error_iff [OF p, of "- 1"] format_ohms_error_iff [OF p, of "47 / 10"] p
  show ?thesis
    by simp
qed

text \<open>
  C7 as stated fails when the precision is negative: \<open>ohms = 1\<close> is not negative, yet the
  call raises, because the format specifier is rejected.
\<close>

theorem format_ohms_error_iff_counterexample:
  "\<not> (1::real) < 0 \<and> format_ohms 1 (- 1) = Inl FormatSpecError"
  by (simp add: format_ohms_def units_def format_g_def valid_precision_def)

subsection \<open>Claim C8\<close>

text \<open>
  C8: whenever \<open>decode\<close> succeeds, the result has \<open>ohms \<ge> 0\<close> and its scheme is one of
  the four labels "R", "EIA-96", "3-digit", "4-digit"; and the EIA-96 base table has
  exactly 96 entries, each between 100 and 976.
\<close>

theorem decode_result_invariant:
  assumes ok: "decode code = Inr r"
  shows "0 \<le> ohms r \<and> scheme r \<in> {''R'', ''EIA-96'', ''3-digit'', ''4-digit''}
       \<and> length EIA96_BASES = 96 \<and> (\<forall>b\<in>set EIA96_BASES. 100 \<le> b \<and> b \<le> 976)"
proof -
  have tab: "\<forall>b\<in>set EIA96_BASES. 100 \<le> b \<and> b \<le> 976"
    using bases_range by (simp add: list_all_iff)
  have ne: "py_strip code \<noteq> []"
    using ok by (auto simp: decode_empty)
  let ?s = "normalized code"
  have res: "0 \<le> ohms r \<and> scheme r \<in> {''R'', ''EIA-96'', ''3-digit'', ''4-digit''}"
  proof (cases "R_CODE_RE ?s")
    case (Some g)
    then obtain a b where m: "R_CODE_RE ?s = Some (a, b)"
      by (cases g) simp
    from ok show ?thesis
      unfolding decode_R [OF ne m] by auto
  next
    case rn: None
    show ?thesis
    proof (cases "EIA96_RE ?s")
      case (Some g)
      then obtain n l where m: "EIA96_RE ?s = Some (n, l)"
        by (cases g) simp
      let ?idx = "int (digits_val n)"
      from ok have range: "1 \<le> ?idx" "?idx \<le> 96"
        unfolding decode_EIA96 [OF ne rn m] Let_def by (auto split: if_splits)
      with ok obtain mult where k: "EIA96_MULTIPLIERS l = Some mult"
        and r: "r = \<lparr>ohms = real_of_int (EIA96_BASES ! nat (?idx - 1)) * mult / 100,
                     scheme = ''EIA-96''\<rparr>"
        unfolding decode_EIA96 [OF ne rn m] Let_def by (auto split: option.splits)
      have "nat (?idx - 1) < length EIA96_BASES"
        using range by (simp add: bases_length)
      then have "EIA96_BASES ! nat (?idx - 1) \<in> set EIA96_BASES"
        by (rule nth_mem)
      with tab have "0 \<le> EIA96_BASES ! nat (?idx - 1)"
        by force
      moreover have "0 < mult"
        by (rule multiplier_pos [OF k])
      ultimately show ?thesis
        by (simp add: r)
    next
      case en: None
      show ?thesis
      proof (cases "DIGIT_RE ?s")
        case (Some ds)
        from ok show ?thesis
          unfolding decode_DIGIT [OF ne rn en Some] by (cases "length ds = 3") auto
      next
        case None
        from ok show ?thesis
          unfolding decode_unrecognized [OF ne rn en None] by simp
      qed
    qed
  qed
  show ?thesis
    using res tab by (simp add: bases_length)
qed

theorem decode_result_invariant_witness:
  "decode ''68X'' = Inr \<lparr>ohms = 499 / 1000, scheme = ''EIA-96''\<rparr>
   \<and> 0 \<le> ohms \<lparr>ohms = 499 / 1000, scheme = ''EIA-96''\<rparr>
   \<and> scheme \<lparr>ohms = 499 / 1000, scheme = ''EIA-96''\<rparr> \<in> {''R'', ''EIA-96'', ''3-digit'', ''4-digit''}
   \<and> length EIA96_BASES = 96 \<and> list_all (\<lambda>b. 100 \<le> b \<and> b \<le> 976) EIA96_BASES"
proof -
  have d: "decode ''68X'' = Inr \<lparr>ohms = 499 / 1000, scheme = ''EIA-96''\<rparr>"
    by code_simp
  from decode_result_invariant [OF d] show ?thesis
    using d by (simp add: list_all_iff)
qed

subsection \<open>Claim C9\<close>

text \<open>
  C9: the multiplier table gives R and Y the same factor, S and X the same factor, H and B
  the same factor; so for every string \<open>d\<close> of two digits with \<open>1 \<le> int(d) \<le> 96\<close>,
  \<open>decode(d + "S")\<close> and \<open>decode(d + "X")\<close> return the same ohms, and so do
  \<open>decode(d + "H")\<close> and \<open>decode(d + "B")\<close>.
\<close>

theorem multiplier_aliases:
  assumes len: "length d = 2" and i: "py_int d = Some idx" and lo: "1 \<le> idx" and hi: "idx \<le> 96"
  shows "EIA96_MULTIPLIERS ''R'' = Some (1 / 100) \<and> EIA96_MULTIPLIERS ''Y'' = Some (1 / 100)
       \<and> EIA96_MULTIPLIERS ''S'' = Some (1 / 10) \<and> EIA96_MULTIPLIERS ''X'' = Some (1 / 10)
       \<and> EIA96_MULTIPLIERS ''H'' = Some 10 \<and> EIA96_MULTIPLIERS ''B'' = Some 10
       \<and> (\<exists>r1 r2. decode (d @ ''S'') = Inr r1 \<and> decode (d @ ''X'') = Inr r2 \<and> ohms r1 = ohms r2)
       \<and> (\<exists>r1 r2. decode (d @ ''H'') = Inr r1 \<and> decode (d @ ''B'') = Inr r2 \<and> ohms r1 = ohms r2)"
proof -
  have t: "EIA96_MULTIPLIERS ''R'' = Some (1 / 100)" "EIA96_MULTIPLIERS ''Y'' = Some (1 / 100)"
      "EIA96_MULTIPLIERS ''S'' = Some (1 / 10)" "EIA96_MULTIPLIERS ''X'' = Some (1 / 10)"
      "EIA96_MULTIPLIERS ''H'' = Some 10" "EIA96_MULTIPLIERS ''B'' = Some 10"
    by (simp_all add: EIA96_MULTIPLIERS_def)
  from len obtain d1 d2 where d: "d = [d1, d2]"
    by (auto simp: length_Suc_conv numeral_2_eq_2)
  from i d have dg: "is_digit d1" "is_digit d2" and v: "int (10 * digit_val d1 + digit_val d2) = idx"
    by (auto simp: py_int_def digits_val_def split: if_splits)
  have k: "list_all (\<lambda>c. is_letter c \<and> upper_char c = c \<and> c \<noteq> CHR ''r'' \<and> c \<noteq> CHR ''R'') ''SXHB''"
    by code_simp
  have e: "decode (d @ [l]) =
      Inr \<lparr>ohms = real_of_int (EIA96_BASES ! nat (idx - 1)) * m / 100, scheme = ''EIA-96''\<rparr>"
    if "l \<in> set ''SXHB''" "EIA96_MULTIPLIERS [l] = Some m" for l m
  proof -
    from that(1) k have l: "is_letter l" "upper_char l = l" "l \<noteq> CHR ''r''" "l \<noteq> CHR ''R''"
      unfolding list_all_iff by blast+
    show ?thesis
      unfolding d append.simps decode_EIA96_code [OF dg l(1,3,4)] v Let_def
      using lo hi that(2) by (simp add: l(2))
  qed
  have S: "decode (d @ ''S'') =
      Inr \<lparr>ohms = real_of_int (EIA96_BASES ! nat (idx - 1)) * (1 / 10) / 100, scheme = ''EIA-96''\<rparr>"
    by (rule e [OF _ t(3)]) simp
  have X: "decode (d @ ''X'') =
      Inr \<lparr>ohms = real_of_int (EIA96_BASES ! nat (idx - 1)) * (1 / 10) / 100, scheme = ''EIA-96''\<rparr>"
    by (rule e [OF _ t(4)]) simp
  have H: "decode (d @ ''H'') =
      Inr \<lparr>ohms = real_of_int (EIA96_BASES ! nat (idx - 1)) * 10 / 100, scheme = ''EIA-96''\<rparr>"
    by (rule e [OF _ t(5)]) simp
  have B: "decode (d @ ''B'') =
      Inr \<lparr>ohms = real_of_int (EIA96_BASES ! nat (idx - 1)) * 10 / 100, scheme = ''EIA-96''\<rparr>"
    by (rule e [OF _ t(6)]) simp
  show ?thesis
    unfolding S X H B using t by simp
qed

theorem multiplier_aliases_witness:
  "length ''68'' = 2 \<and> py_int ''68'' = Some 68 \<and> (1::int) \<le> 68 \<and> (68::int) \<le> 96
   \<and> (\<exists>r1 r2. decode ''68S'' = Inr r1 \<and> decode ''68X'' = Inr r2 \<and> ohms r1 = ohms r2)
   \<and> (\<exists>r1 r2. decode ''68H'' = Inr r1 \<and> decode ''68B'' = Inr r2 \<and> ohms r1 = ohms r2)"
proof -
  have i: "py_int ''68'' = Some 68"
    by code_simp
  have l: "length ''68'' = 2"
    by simp
  from multiplier_aliases [OF l i] show ?thesis
    using i by simp
qed

subsection \<open>Claim C10\<close>

text \<open>
  C10: \<open>decode\<close> accepts the bare letter R, in either case and with whitespace around it:
  both digit groups are empty, and it returns 0 ohms with the scheme "R".
\<close>

theorem decode_bare_R:
  assumes w1: "list_all is_space w1" and w2: "list_all is_space w2"
    and c: "c = CHR ''r'' \<or> c = CHR ''R''"
  shows "decode (w1 @ [c] @ w2) = Inr \<lparr>ohms = 0, scheme = ''R''\<rparr>"
proof -
  let ?s = "w1 @ c # w2"
  have "list_all (\<lambda>c. \<not> is_space c \<and> upper_char c = CHR ''R'' \<and> c \<noteq> CHR '' '') ''rR''"
    by code_simp
  then have cs: "\<not> is_space c" "upper_char c = CHR ''R''" "c \<noteq> CHR '' ''"
    using c by auto
  have st: "py_strip ?s = [c]"
    using py_strip_pad [OF w1 w2, of "[c]"] cs by simp
  have n: "normalized ?s = ''R''"
    by (simp add: normalized_def st remove_spaces_def py_upper_def cs)
  have m: "R_CODE_RE (normalized ?s) = Some ([], [])"
    unfolding n using R_CODE_RE_match [of "[]" "[]" "CHR ''R''"] by simp
  have z: "digits_val (or_zero []) = 0"
    by (simp add: or_zero_def digits_val_def digit_val_def)
  show ?thesis
    using decode_R [OF _ m] st by (simp add: z)
qed

theorem decode_bare_R_witness:
  "list_all is_space [] \<and> list_all is_space [CHR '' '', CHR 0x09] \<and> list_all is_space [CHR 0x0A]
   \<and> decode ''R'' = Inr \<lparr>ohms = 0, scheme = ''R''\<rparr>
   \<and> decode ''r'' = Inr \<lparr>ohms = 0, scheme = ''R''\<rparr>
   \<and> decode ([CHR '' '', CHR 0x09] @ ''r'' @ [CHR 0x0A]) = Inr \<lparr>ohms = 0, scheme = ''R''\<rparr>"
proof -
  have s: "list_all is_space []" "list_all is_space [CHR '' '', CHR 0x09]"
      "list_all is_space [CHR 0x0A]"
    by (simp_all add: is_space_def)
  from decode_bare_R [OF s(1) s(1), of "CHR ''R''"]
  have 1: "decode ''R'' = Inr \<lparr>ohms = 0, scheme = ''R''\<rparr>" by simp
  from decode_bare_R [OF s(1) s(1), of "CHR ''r''"]
  have 2: "decode ''r'' = Inr \<lparr>ohms = 0, scheme = ''R''\<rparr>" by simp
  from decode_bare_R [OF s(2) s(3), of "CHR ''r''"]
  have 3: "decode ([CHR '' '', CHR 0x09] @ ''r'' @ [CHR 0x0A]) = Inr \<lparr>ohms = 0, scheme = ''R''\<rparr>"
    by simp
  show ?thesis using s 1 2 3 by simp
qed

end
